theory Spec2Isabelle
  imports Main "HOL-Library.Multiset"
begin

section \<open>Strings, numbers and errors of the JavaScript being modelled\<close>

text \<open>
  The development embeds \<^verbatim>\<open>services/Scraper.js\<close>. JavaScript strings are modelled as
  \<^typ>\<open>string\<close> restricted to ASCII, so case conversion and white space are the ASCII
  ones. A rejected promise or a thrown exception is the left injection of a sum type.
\<close>

datatype error
  = TypeError      \<comment> \<open>a property read or a method call on \<^verbatim>\<open>undefined\<close> or \<^verbatim>\<open>null\<close>\<close>
  | NetworkError   \<comment> \<open>\<^verbatim>\<open>axios.get\<close> rejected (no response, or a status outside 2xx)\<close>

text \<open>\<^verbatim>\<open>s.split(c)\<close> for a one-character separator: the empty string gives one empty token.\<close>

fun split_on :: "char \<Rightarrow> string \<Rightarrow> string list" where
  "split_on c [] = [[]]"
| "split_on c (x # xs) =
     (if x = c then [] # split_on c xs
      else (case split_on c xs of t # ts \<Rightarrow> (x # t) # ts | [] \<Rightarrow> [[x]]))"

text \<open>\<^verbatim>\<open>ts.join(sep)\<close>.\<close>

fun join :: "string \<Rightarrow> string list \<Rightarrow> string" where
  "join sep [] = []"
| "join sep [t] = t"
| "join sep (t # u # us) = t @ sep @ join sep (u # us)"

definition isWhiteSpace :: "char \<Rightarrow> bool" where
  "isWhiteSpace c = (c \<in> set [CHR 0x09, CHR 0x0A, CHR 0x0B, CHR 0x0C, CHR 0x0D, CHR '' ''])"

text \<open>\<^verbatim>\<open>s.trim()\<close>.\<close>

definition trim :: "string \<Rightarrow> string" where
  "trim s = rev (dropWhile isWhiteSpace (rev (dropWhile isWhiteSpace s)))"

text \<open>\<^verbatim>\<open>s.slice(-2)\<close>: the last two characters, or all of a shorter string.\<close>

definition sliceLast2 :: "string \<Rightarrow> string" where
  "sliceLast2 s = drop (length s - 2) s"

text \<open>\<^verbatim>\<open>s.slice(a, b)\<close> for \<open>0 \<le> a \<le> b\<close>.\<close>

definition slice :: "nat \<Rightarrow> nat \<Rightarrow> string \<Rightarrow> string" where
  "slice a b s = take (b - a) (drop a s)"

definition toUpperChar :: "char \<Rightarrow> char" where
  "toUpperChar c =
     (let n = (of_char c :: nat)
      in if of_char CHR ''a'' \<le> n \<and> n \<le> of_char CHR ''z'' then char_of (n - 32) else c)"

definition toLowerChar :: "char \<Rightarrow> char" where
  "toLowerChar c =
     (let n = (of_char c :: nat)
      in if of_char CHR ''A'' \<le> n \<and> n \<le> of_char CHR ''Z'' then char_of (n + 32) else c)"

definition digitChar :: "nat \<Rightarrow> char" where
  "digitChar n = char_of (48 + n)"

text \<open>The decimal rendering of a number inside a template literal.\<close>

fun showNat :: "nat \<Rightarrow> string" where
  "showNat n = (if n < 10 then [digitChar n] else showNat (n div 10) @ [digitChar (n mod 10)])"

definition showInt :: "int \<Rightarrow> string" where
  "showInt i = (if i < 0 then CHR ''-'' # showNat (nat (- i)) else showNat (nat i))"

text \<open>
  A JavaScript number that is an integer or \<^verbatim>\<open>NaN\<close> (\<open>None\<close>). Integers are unbounded
  here; the source's doubles are exact up to \<open>2 ^ 53\<close>.
\<close>

type_synonym jsnum = "int option"

definition showNum :: "jsnum \<Rightarrow> string" where
  "showNum n = (case n of None \<Rightarrow> ''NaN'' | Some i \<Rightarrow> showInt i)"

text \<open>\<^verbatim>\<open>xs[i]\<close> is \<^verbatim>\<open>undefined\<close> (\<open>None\<close>) out of range.\<close>

definition nthOpt :: "'a list \<Rightarrow> nat \<Rightarrow> 'a option" where
  "nthOpt xs i = (if i < length xs then Some (xs ! i) else None)"

text \<open>An optional string inside a template literal.\<close>

definition showOpt :: "string option \<Rightarrow> string" where
  "showOpt v = (case v of None \<Rightarrow> ''undefined'' | Some s \<Rightarrow> s)"

text \<open>\<^verbatim>\<open>xs.indexOf(v)\<close>: the first position of \<open>v\<close>, or \<open>-1\<close>.\<close>

fun indexFrom :: "int \<Rightarrow> 'a list \<Rightarrow> 'a \<Rightarrow> int" where
  "indexFrom i [] v = -1"
| "indexFrom i (x # xs) v = (if x = v then i else indexFrom (i + 1) xs v)"

definition indexOf :: "string list \<Rightarrow> string option \<Rightarrow> int" where
  "indexOf xs v = (case v of None \<Rightarrow> -1 | Some s \<Rightarrow> indexFrom 0 xs s)"

section \<open>parseDate and toSentenceCase\<close>

definition months :: "string list" where
  "months = [''January'', ''February'', ''March'', ''April'', ''May'', ''June'', ''July'',
             ''August'', ''September'', ''October'', ''November'', ''December'']"

text \<open>\<open>None\<close> is an argument that is not a string: \<^verbatim>\<open>date.split\<close> throws.\<close>

definition parseDate :: "string option \<Rightarrow> error + string" where
  "parseDate date =
     (case date of
        None \<Rightarrow> Inl TypeError
      | Some s \<Rightarrow>
          (let split = map trim (split_on CHR '' '' s)
           in Inr (showOpt (nthOpt split 2) @ ''-''
                     @ showInt (indexOf months (nthOpt split 1) + 1)
                     @ ''-'' @ showOpt (nthOpt split 0))))"

text \<open>
  One word of \<^verbatim>\<open>toSentenceCase\<close>: \<^verbatim>\<open>s[0].toUpperCase() + s.substring(1).toLowerCase()\<close>.
  On the empty word \<^verbatim>\<open>s[0]\<close> is \<^verbatim>\<open>undefined\<close> and the call throws.
\<close>

definition sentenceCaseWord :: "string \<Rightarrow> error + string" where
  "sentenceCaseWord s =
     (case s of [] \<Rightarrow> Inl TypeError | c # cs \<Rightarrow> Inr (toUpperChar c # map toLowerChar cs))"

text \<open>\<^verbatim>\<open>xs.map(f)\<close> for an \<open>f\<close> that may throw: the first exception ends the map.\<close>

fun mapE :: "('a \<Rightarrow> error + 'b) \<Rightarrow> 'a list \<Rightarrow> error + 'b list" where
  "mapE f [] = Inr []"
| "mapE f (x # xs) =
     (case f x of Inl e \<Rightarrow> Inl e
      | Inr y \<Rightarrow> (case mapE f xs of Inl e \<Rightarrow> Inl e | Inr ys \<Rightarrow> Inr (y # ys)))"

text \<open>The body of the \<^verbatim>\<open>try\<close> block; \<open>None\<close> is an argument that is not a string.\<close>

definition sentenceCaseTry :: "string option \<Rightarrow> error + string" where
  "sentenceCaseTry val =
     (case val of None \<Rightarrow> Inl TypeError
      | Some s \<Rightarrow>
          (case mapE sentenceCaseWord (split_on CHR '' '' s) of
             Inl e \<Rightarrow> Inl e
           | Inr ws \<Rightarrow> Inr (join '' '' ws)))"

definition toSentenceCase :: "string option \<Rightarrow> error + string" where
  "toSentenceCase val = (case sentenceCaseTry val of Inl e \<Rightarrow> Inr [] | Inr r \<Rightarrow> Inr r)"

section \<open>Chart entries, the cache and the remote source\<close>

text \<open>
  The object returned by \<^verbatim>\<open>getNumberOneRemote\<close>. The fields \<open>year\<close>, \<open>month\<close> and
  \<open>day\<close> hold the arguments as they were passed; a number is kept as its decimal text.
\<close>

record entry =
  date :: string
  actualChartStartDate :: string
  actualChartEndDate :: string
  track :: string
  artist :: string
  cover :: "string option"
  year :: string
  month :: string
  day :: string

text \<open>
  What the four selectors read from a fetched chart page: the text of
  \<^verbatim>\<open>.article-date\<close>, of the first row's title and artist, and the \<^verbatim>\<open>src\<close> of the
  cover image (\<open>None\<close> when the attribute is missing).
\<close>

record page =
  articleDate :: string
  titleText :: string
  artistText :: string
  coverSrc :: "string option"

text \<open>
  The world the module runs in: \<open>numberOnesData\<close> is the object parsed from
  \<^verbatim>\<open>./data/number-ones.json\<close> when the module was loaded, \<open>dataFile\<close> is the content of that
  file now, and \<open>requests\<close> lists the URLs requested with \<^verbatim>\<open>axios.get\<close>, oldest first.
  The remote site is a function \<open>http\<close> from a URL to the page it serves, \<open>None\<close> when
  the request is rejected.
\<close>

record world =
  numberOnesData :: "string \<rightharpoonup> entry"
  dataFile :: "string \<rightharpoonup> entry"
  requests :: "string list"

type_synonym remote = "string \<Rightarrow> page option"

definition chartUrl :: "string \<Rightarrow> string" where
  "chartUrl d = ''https://www.officialcharts.com/charts/singles-chart/'' @ d"

definition getNumberOneRemote ::
  "remote \<Rightarrow> string \<Rightarrow> string \<Rightarrow> string \<Rightarrow> world \<Rightarrow> (error + entry) \<times> world" where
  "getNumberOneRemote http y m d w =
     (let url = chartUrl (y @ m @ d);
          w' = w\<lparr>requests := requests w @ [url]\<rparr>
      in case http url of
           None \<Rightarrow> (Inl NetworkError, w')
         | Some pg \<Rightarrow>
             (let chartDate = split_on CHR ''-'' (trim (articleDate pg))
              in case nthOpt chartDate 0 of
                   None \<Rightarrow> (Inl TypeError, w')
                 | Some c0 \<Rightarrow>
              (case nthOpt chartDate 1 of
                   None \<Rightarrow> (Inl TypeError, w')
                 | Some c1 \<Rightarrow>
              (case parseDate (Some (trim c0)) of
                   Inl e \<Rightarrow> (Inl e, w')
                 | Inr startDate \<Rightarrow>
              (case parseDate (Some (trim c1)) of
                   Inl e \<Rightarrow> (Inl e, w')
                 | Inr endDate \<Rightarrow>
              (case toSentenceCase (Some (trim (titleText pg))) of
                   Inl e \<Rightarrow> (Inl e, w')
                 | Inr t \<Rightarrow>
              (case toSentenceCase (Some (trim (artistText pg))) of
                   Inl e \<Rightarrow> (Inl e, w')
                 | Inr a \<Rightarrow>
                     (Inr \<lparr>date = y @ ''-'' @ m @ ''-'' @ d,
                           actualChartStartDate = startDate,
                           actualChartEndDate = endDate,
                           track = t, artist = a, cover = coverSrc pg,
                           year = y, month = m, day = d\<rparr>, w'))))))))"

definition getNumberOneLocal :: "world \<Rightarrow> string \<Rightarrow> string \<Rightarrow> string \<Rightarrow> entry option" where
  "getNumberOneLocal w y m d = numberOnesData w (y @ ''-'' @ m @ ''-'' @ d)"

definition getNumberOne ::
  "remote \<Rightarrow> string \<Rightarrow> string \<Rightarrow> string \<Rightarrow> world \<Rightarrow> (error + entry) \<times> world" where
  "getNumberOne http y m0 d0 w =
     (let m = sliceLast2 (''0'' @ m0);
          d = sliceLast2 (''0'' @ d0)
      in case getNumberOneLocal w y m d of
           Some data \<Rightarrow> (Inr data, w)
         | None \<Rightarrow> getNumberOneRemote http y m d w)"

section \<open>Dates\<close>

text \<open>
  A \<^verbatim>\<open>Date\<close> set to local midnight is the number of its day, counted from 1 January 1970;
  the operations below are ECMAScript's \<^verbatim>\<open>MakeDay\<close>, \<^verbatim>\<open>YearFromTime\<close>,
  \<^verbatim>\<open>MonthFromTime\<close> and \<^verbatim>\<open>DateFromTime\<close> on whole days of the proleptic Gregorian
  calendar. Months are counted from 1 in \<open>daysFromCivil\<close> and \<open>civilFromDays\<close>, and from
  0 in \<open>makeDay\<close> and \<open>getMonth\<close>, as in JavaScript.
\<close>

definition daysFromCivil :: "int \<Rightarrow> int \<Rightarrow> int \<Rightarrow> int" where
  "daysFromCivil y0 m d =
     (let y = (if m \<le> 2 then y0 - 1 else y0);
          era = y div 400;
          yoe = y - era * 400;
          doy = (153 * (if m > 2 then m - 3 else m + 9) + 2) div 5 + d - 1;
          doe = yoe * 365 + yoe div 4 - yoe div 100 + doy
      in era * 146097 + doe - 719468)"

definition civilFromDays :: "int \<Rightarrow> int \<times> int \<times> int" where
  "civilFromDays z0 =
     (let z = z0 + 719468;
          era = z div 146097;
          doe = z - era * 146097;
          yoe = (doe - doe div 1460 + doe div 36524 - doe div 146096) div 365;
          doy = doe - (365 * yoe + yoe div 4 - yoe div 100);
          mp = (5 * doy + 2) div 153;
          d = doy - (153 * mp + 2) div 5 + 1;
          m = (if mp < 10 then mp + 3 else mp - 9);
          y = yoe + era * 400
      in (if m \<le> 2 then y + 1 else y, m, d))"

definition makeDay :: "int \<Rightarrow> int \<Rightarrow> int \<Rightarrow> int" where
  "makeDay y m dt = daysFromCivil (y + m div 12) (m mod 12 + 1) 1 + dt - 1"

definition getFullYear :: "int \<Rightarrow> int" where
  "getFullYear t = fst (civilFromDays t)"

definition getMonth :: "int \<Rightarrow> int" where
  "getMonth t = fst (snd (civilFromDays t)) - 1"

definition getDate :: "int \<Rightarrow> int" where
  "getDate t = snd (snd (civilFromDays t))"

text \<open>
  \<^verbatim>\<open>new Date(y, m, d)\<close>: \<^verbatim>\<open>NaN\<close> in any argument gives an invalid date (\<open>None\<close>), and a
  year from 0 to 99 counts from 1900.
\<close>

definition newDate :: "jsnum \<Rightarrow> jsnum \<Rightarrow> jsnum \<Rightarrow> int option" where
  "newDate y m d =
     (case (y, m, d) of
        (Some yi, Some mi, Some di) \<Rightarrow>
          Some (makeDay (if 0 \<le> yi \<and> yi \<le> 99 then 1900 + yi else yi) mi di)
      | _ \<Rightarrow> None)"

definition isDigit :: "char \<Rightarrow> bool" where
  "isDigit c = (let n = (of_char c :: nat) in of_char CHR ''0'' \<le> n \<and> n \<le> of_char CHR ''9'')"

definition digitsValue :: "string \<Rightarrow> int" where
  "digitsValue ds = foldl (\<lambda>a c. 10 * a + (int (of_char c) - 48)) 0 ds"

text \<open>
  \<^verbatim>\<open>parseInt(s, 10)\<close>: leading white space, an optional sign, then the longest run of
  digits; \<^verbatim>\<open>NaN\<close> when there is no digit.
\<close>

definition parseInt :: "string \<Rightarrow> jsnum" where
  "parseInt s =
     (let s1 = dropWhile isWhiteSpace s;
          neg = (case s1 of c # _ \<Rightarrow> c = CHR ''-'' | [] \<Rightarrow> False);
          s2 = (case s1 of c # r \<Rightarrow> if c = CHR ''-'' \<or> c = CHR ''+'' then r else s1 | [] \<Rightarrow> s1);
          ds = takeWhile isDigit s2
      in if ds = [] then None else Some (if neg then - digitsValue ds else digitsValue ds))"

text \<open>
  The conversion of a string argument of \<^verbatim>\<open>new Date\<close> to a number, for the strings this
  development uses: white space around the text is dropped, the empty text is 0, an
  optionally signed run of digits is its value. Every other text is taken as \<^verbatim>\<open>NaN\<close>;
  ECMAScript also reads fractions, exponents and the prefixes \<^verbatim>\<open>0x\<close>, \<^verbatim>\<open>0o\<close>, \<^verbatim>\<open>0b\<close>,
  which are left out.
\<close>

definition toNumber :: "string \<Rightarrow> jsnum" where
  "toNumber s =
     (let t = trim s;
          neg = (case t of c # _ \<Rightarrow> c = CHR ''-'' | [] \<Rightarrow> False);
          ds = (case t of c # r \<Rightarrow> if c = CHR ''-'' \<or> c = CHR ''+'' then r else t | [] \<Rightarrow> t)
      in if t = [] then Some 0
         else if ds \<noteq> [] \<and> list_all isDigit ds
         then Some (if neg then - digitsValue ds else digitsValue ds)
         else None)"

section \<open>getYearlyNumberOnes\<close>

text \<open>The \<^verbatim>\<open>while\<close> loop that fills \<^verbatim>\<open>years\<close>.\<close>

function yearsLoop :: "int \<Rightarrow> int \<Rightarrow> int list" where
  "yearsLoop y currentYear = (if y \<le> currentYear then y # yearsLoop (y + 1) currentYear else [])"
  by pat_completeness auto
termination
  by (relation "measure (\<lambda>(y, c). nat (c + 1 - y))") auto

text \<open>
  \<^verbatim>\<open>Promise.all\<close> over calls made one after the other: every call is started, in list
  order, and the values come back in list order. When some call is rejected the whole
  is rejected; the error reported here is that of the first rejected call of the list.
\<close>

fun promiseAll :: "(world \<Rightarrow> (error + 'a) \<times> world) list \<Rightarrow> world \<Rightarrow> (error + 'a list) \<times> world" where
  "promiseAll [] w = (Inr [], w)"
| "promiseAll (p # ps) w =
     (let (r, w1) = p w;
          (rs, w2) = promiseAll ps w1
      in (case r of Inl e \<Rightarrow> Inl e
          | Inr x \<Rightarrow> (case rs of Inl e \<Rightarrow> Inl e | Inr xs \<Rightarrow> Inr (x # xs)), w2))"

text \<open>\<open>now\<close> is the number of the current local day.\<close>

definition getYearlyNumberOnes ::
  "remote \<Rightarrow> int \<Rightarrow> string \<Rightarrow> string \<Rightarrow> string \<Rightarrow> world \<Rightarrow> (error + entry list) \<times> world" where
  "getYearlyNumberOnes http now year0 month0 day0 w =
     (let y = parseInt year0;
          m = parseInt month0;
          d = parseInt day0;
          currentYear = getFullYear now;
          currentYear' =
            (if (case m of Some mi \<Rightarrow> mi > getMonth now | None \<Rightarrow> False)
             then currentYear - 1 else currentYear);
          years = (case y of Some yi \<Rightarrow> yearsLoop yi currentYear' | None \<Rightarrow> [])
      in promiseAll (map (\<lambda>yr. getNumberOne http (showInt yr) (showNum m) (showNum d)) years) w)"

section \<open>cacheNumberOnes\<close>

text \<open>
  The \<^verbatim>\<open>for\<close> loop that fills \<^verbatim>\<open>dates\<close>. \<^verbatim>\<open>d.setDate(d.getDate() + 1)\<close> is
  \<^verbatim>\<open>MakeDay\<close> of the date's year, month and day of month plus one, which is the next
  day number. A date at local midnight is \<^verbatim>\<open><= now\<close> when its day is not after today.
\<close>

type_synonym task = "int \<times> string \<times> string"

function datesLoop :: "int \<Rightarrow> int \<Rightarrow> task list" where
  "datesLoop d now =
     (if d \<le> now
      then (getFullYear d, sliceLast2 (''0'' @ showInt (getMonth d)),
            sliceLast2 (''0'' @ showInt (getDate d))) # datesLoop (d + 1) now
      else [])"
  by pat_completeness auto
termination
  by (relation "measure (\<lambda>(d, n). nat (n + 1 - d))") auto

text \<open>
  \<^verbatim>\<open>PromisePool.for(items).process(f)\<close> of \<^verbatim>\<open>@supercharge/promise-pool\<close> 1.x: every item
  is started, in order; a task that resolves pushes its value on \<^verbatim>\<open>results\<close>, a task that
  rejects pushes its error on \<^verbatim>\<open>errors\<close>, so both lists are in order of completion.
  \<open>sched\<close> is that order, as positions in the list of items. The cap on the number of
  tasks in flight decides when a task starts, not whether or in which order.
\<close>

fun startAll :: "('a \<Rightarrow> world \<Rightarrow> (error + 'b) \<times> world) \<Rightarrow> 'a list \<Rightarrow> world \<Rightarrow> (error + 'b) list \<times> world" where
  "startAll f [] w = ([], w)"
| "startAll f (x # xs) w =
     (let (r, w1) = f x w;
          (rs, w2) = startAll f xs w1
      in (r # rs, w2))"

definition completed :: "nat list \<Rightarrow> 'a list \<Rightarrow> 'a list" where
  "completed sched outs = map (\<lambda>i. outs ! i) (filter (\<lambda>i. i < length outs) sched)"

definition process ::
  "nat list \<Rightarrow> ('a \<Rightarrow> world \<Rightarrow> (error + 'b) \<times> world) \<Rightarrow> 'a list \<Rightarrow> world
     \<Rightarrow> ('b list \<times> error list) \<times> world" where
  "process sched f items w =
     (let (outs, w') = startAll f items w;
          settled = completed sched outs
      in ((List.map_filter (\<lambda>r. case r of Inr v \<Rightarrow> Some v | Inl _ \<Rightarrow> None) settled,
           List.map_filter (\<lambda>r. case r of Inl e \<Rightarrow> Some e | Inr _ \<Rightarrow> None) settled), w'))"

text \<open>
  The \<^verbatim>\<open>forEach\<close> that fills \<^verbatim>\<open>saveData\<close>, starting from the empty object; its body is
  \<^verbatim>\<open>saveData[r.date] = r\<close>.
\<close>

definition saveEntry :: "(string \<rightharpoonup> entry) \<Rightarrow> entry \<Rightarrow> (string \<rightharpoonup> entry)" where
  "saveEntry saveData r = saveData(date r \<mapsto> r)"

definition buildSaveData :: "entry list \<Rightarrow> (string \<rightharpoonup> entry)" where
  "buildSaveData results = foldl saveEntry Map.empty results"

text \<open>The array \<^verbatim>\<open>dates\<close>: from the date built from the argument up to \<open>now\<close>.\<close>

definition dates :: "int \<Rightarrow> string \<Rightarrow> task list" where
  "dates now date0 =
     (case newDate (toNumber (slice 0 4 date0)) (toNumber (slice 4 6 date0))
             (toNumber (slice 6 8 date0)) of
        Some d \<Rightarrow> datesLoop d now
      | None \<Rightarrow> [])"

text \<open>The callback given to \<^verbatim>\<open>process\<close>; the year is a number and is rendered in the URL.\<close>

definition processTask :: "remote \<Rightarrow> task \<Rightarrow> world \<Rightarrow> (error + entry) \<times> world" where
  "processTask http t w = (case t of (y, m, d) \<Rightarrow> getNumberOneRemote http (showInt y) m d w)"

definition cacheNumberOnes ::
  "remote \<Rightarrow> nat list \<Rightarrow> int \<Rightarrow> string \<Rightarrow> world \<Rightarrow> entry list \<times> world" where
  "cacheNumberOnes http sched now date0 w =
     (let ((results, errors), w1) = process sched (processTask http) (dates now date0) w;
          saveData = buildSaveData results
      in (results, w1\<lparr>dataFile := saveData\<rparr>))"

section \<open>Notions used to state the properties\<close>

text \<open>A word with its first character in upper case and the others in lower case.\<close>

definition capitalise :: "string \<Rightarrow> string" where
  "capitalise w = (case w of [] \<Rightarrow> [] | c # cs \<Rightarrow> toUpperChar c # map toLowerChar cs)"

text \<open>A number below 100 as two digits, and the composite key \<^verbatim>\<open>YYYY-MM-DD\<close>.\<close>

definition twoDigits :: "nat \<Rightarrow> string" where
  "twoDigits n = [digitChar (n div 10), digitChar (n mod 10)]"

definition isoComposite :: "string \<Rightarrow> nat \<Rightarrow> nat \<Rightarrow> string" where
  "isoComposite y m d = y @ ''-'' @ twoDigits m @ ''-'' @ twoDigits d"

text \<open>
  The last year of a yearly lookup: the current year, or the year before when the queried
  month (counted from 1) is greater than the current month (counted from 0).
\<close>

definition currentChartYear :: "int \<Rightarrow> jsnum \<Rightarrow> int" where
  "currentChartYear now m =
     (case m of
        Some mi \<Rightarrow> if mi > getMonth now then getFullYear now - 1 else getFullYear now
      | None \<Rightarrow> getFullYear now)"

text \<open>Every entry of a store is filed under its own \<open>date\<close>.\<close>

definition storeInvariant :: "(string \<rightharpoonup> entry) \<Rightarrow> bool" where
  "storeInvariant store = (\<forall>k e. store k = Some e \<longrightarrow> date e = k)"

text \<open>The URL requested for a task, and the key its entry is saved under.\<close>

definition taskUrl :: "task \<Rightarrow> string" where
  "taskUrl t = (case t of (y, m, d) \<Rightarrow> chartUrl (showInt y @ m @ d))"

definition taskKey :: "task \<Rightarrow> string" where
  "taskKey t = (case t of (y, m, d) \<Rightarrow> showInt y @ ''-'' @ m @ ''-'' @ d)"

text \<open>The entries of the tasks whose fetch succeeds, in the order of the tasks.\<close>

definition fetched :: "remote \<Rightarrow> world \<Rightarrow> task list \<Rightarrow> entry list" where
  "fetched http w ts =
     List.map_filter (\<lambda>t. case fst (processTask http t w) of Inr e \<Rightarrow> Some e | Inl _ \<Rightarrow> None) ts"

subsection \<open>A small world to run the functions in\<close>

definition christmasPage :: page where
  "christmasPage =
     \<lparr>articleDate = ''25 December 2020 - 31 December 2020'', titleText = ''LAST CHRISTMAS'',
      artistText = ''WHAM!'', coverSrc = Some ''x.png''\<rparr>"

text \<open>A site that serves the same page for every date but one, which it refuses.\<close>

definition site :: remote where
  "site url = (if url = chartUrl ''20210031'' then None else Some christmasPage)"

definition oldEntry :: entry where
  "oldEntry =
     \<lparr>date = ''1999-01-01'', actualChartStartDate = ''1998-12-27'',
      actualChartEndDate = ''1999-1-2'', track = ''Chocolate Salty Balls'', artist = ''Chef'',
      cover = None, year = ''1999'', month = ''01'', day = ''01''\<rparr>"

definition emptyWorld :: world where
  "emptyWorld = \<lparr>numberOnesData = Map.empty, dataFile = Map.empty, requests = []\<rparr>"

definition oldWorld :: world where
  "oldWorld =
     \<lparr>numberOnesData = [''1999-01-01'' \<mapsto> oldEntry], dataFile = [''1999-01-01'' \<mapsto> oldEntry],
      requests = []\<rparr>"

section \<open>Facts about the string functions\<close>

declare showNat.simps [simp del]
declare yearsLoop.simps [simp del]
declare datesLoop.simps [simp del]

lemma split_on_not_Nil: "split_on c s \<noteq> []"
  by (induction s) (auto split: list.splits)

lemma split_on_no_sep: "c \<notin> set w \<Longrightarrow> split_on c w = [w]"
  by (induction w) auto

lemma split_on_append_sep:
  "c \<notin> set w \<Longrightarrow> split_on c (w @ c # rest) = w # split_on c rest"
  by (induction w) auto

lemma split_on_join:
  "ws \<noteq> [] \<Longrightarrow> \<forall>w\<in>set ws. c \<notin> set w \<Longrightarrow> split_on c (join [c] ws) = ws"
proof (induction "[c]" ws rule: join.induct)
  case 1
  then show ?case by simp
next
  case (2 t)
  then show ?case by (simp add: split_on_no_sep)
next
  case (3 t u us)
  then show ?case by (simp add: split_on_append_sep)
qed

lemma indexFrom_absent: "v \<notin> set xs \<Longrightarrow> indexFrom i xs v = - 1"
  by (induction xs arbitrary: i) auto

lemma showInt_0: "showInt 0 = ''0''"
  by code_simp

lemma mapE_words_ok:
  "\<forall>w\<in>set ws. w \<noteq> [] \<Longrightarrow> mapE sentenceCaseWord ws = Inr (map capitalise ws)"
  by (induction ws) (auto simp: sentenceCaseWord_def capitalise_def split: list.splits)

lemma mapE_words_empty:
  "[] \<in> set ws \<Longrightarrow> mapE sentenceCaseWord ws = Inl TypeError"
  by (induction ws) (auto simp: sentenceCaseWord_def split: list.splits sum.splits)

lemma toSentenceCase_returns: "\<exists>r. toSentenceCase v = Inr r"
  by (simp add: toSentenceCase_def split: sum.splits)

lemma toSentenceCase_words:
  assumes "ws \<noteq> []" and "\<forall>w\<in>set ws. w \<noteq> [] \<and> CHR '' '' \<notin> set w"
  shows "toSentenceCase (Some (join '' '' ws)) = Inr (join '' '' (map capitalise ws))"
proof -
  have "split_on CHR '' '' (join '' '' ws) = ws"
    using assms by (simp add: split_on_join)
  moreover have "mapE sentenceCaseWord ws = Inr (map capitalise ws)"
    using assms by (simp add: mapE_words_ok)
  ultimately show ?thesis
    by (simp add: toSentenceCase_def sentenceCaseTry_def)
qed

lemma toSentenceCase_empty_token:
  "[] \<in> set (split_on CHR '' '' s) \<Longrightarrow> toSentenceCase (Some s) = Inr []"
  by (simp add: toSentenceCase_def sentenceCaseTry_def mapE_words_empty)

section \<open>parseDate on a month it does not know\<close>

text \<open>
  C4, as the specification states it: \<open>parseDate\<close> on a text \<^verbatim>\<open>D Month YYYY\<close> whose month
  is not one of the twelve English names fails with an error. It does not: the month
  \<^verbatim>\<open>Augustus\<close> gives the text \<^verbatim>\<open>2020-0-1\<close>, a value.
\<close>

theorem parseDate_unknown_month_counterexample:
  "parseDate (Some ''1 Augustus 2020'') = Inr ''2020-0-1''"
  by code_simp

text \<open>
  C4, amended: on a text made of a day, a month and a year separated by single spaces,
  where the month is not one of the twelve names, \<open>parseDate\<close> raises no error and
  returns the year, the month number \<open>0\<close> and the day, joined by hyphens.
\<close>

theorem parseDate_unknown_month:
  assumes "CHR '' '' \<notin> set d" and "CHR '' '' \<notin> set m" and "CHR '' '' \<notin> set y"
    and "trim m \<notin> set months"
  shows "parseDate (Some (d @ '' '' @ m @ '' '' @ y)) = Inr (trim y @ ''-0-'' @ trim d)"
proof -
  have "split_on CHR '' '' (join '' '' [d, m, y]) = [d, m, y]"
    using assms(1-3) by (intro split_on_join) auto
  then have split: "split_on CHR '' '' (d @ '' '' @ m @ '' '' @ y) = [d, m, y]"
    by simp
  have "indexOf months (Some (trim m)) = - 1"
    using assms(4) by (simp add: indexOf_def indexFrom_absent)
  then show ?thesis
    using split by (simp add: parseDate_def nthOpt_def showOpt_def showInt_0)
qed

theorem parseDate_unknown_month_witness:
  "CHR '' '' \<notin> set ''1'' \<and> CHR '' '' \<notin> set ''Augustus'' \<and> CHR '' '' \<notin> set ''2020''
   \<and> trim ''Augustus'' \<notin> set months
   \<and> parseDate (Some (''1'' @ '' '' @ ''Augustus'' @ '' '' @ ''2020''))
       = Inr (trim ''2020'' @ ''-0-'' @ trim ''1'')"
proof -
  have h1: "CHR '' '' \<notin> set ''1''" and h2: "CHR '' '' \<notin> set ''Augustus''"
    and h3: "CHR '' '' \<notin> set ''2020''"
    by simp_all
  have h4: "trim ''Augustus'' \<notin> set months"
    by code_simp
  show ?thesis
    using h1 h2 h3 h4 parseDate_unknown_month [OF h1 h2 h3 h4] by simp
qed

section \<open>toSentenceCase\<close>

text \<open>
  C6: \<open>toSentenceCase\<close> never throws. On words separated by single spaces, none empty,
  it gives each word with its first character in upper case and the others in lower
  case. On an argument that is not a string, on the empty string and on every string
  with an empty token, it gives the empty string.
\<close>

theorem toSentenceCase_never_throws:
  "(\<exists>r. toSentenceCase v = Inr r)
   \<and> toSentenceCase None = Inr []
   \<and> toSentenceCase (Some []) = Inr []
   \<and> ([] \<in> set (split_on CHR '' '' s) \<longrightarrow> toSentenceCase (Some s) = Inr [])
   \<and> (ws \<noteq> [] \<and> (\<forall>w\<in>set ws. w \<noteq> [] \<and> CHR '' '' \<notin> set w) \<longrightarrow>
        toSentenceCase (Some (join '' '' ws)) = Inr (join '' '' (map capitalise ws)))"
proof -
  have "toSentenceCase None = Inr []"
    by (simp add: toSentenceCase_def sentenceCaseTry_def)
  moreover have "toSentenceCase (Some []) = Inr []"
    by (simp add: toSentenceCase_empty_token)
  ultimately show ?thesis
    using toSentenceCase_returns toSentenceCase_words toSentenceCase_empty_token by blast
qed

theorem toSentenceCase_never_throws_witness:
  "[] \<in> set (split_on CHR '' '' ''A  B'')
   \<and> toSentenceCase (Some ''A  B'') = Inr []
   \<and> toSentenceCase (Some ''STUART ASHWORTH'') = Inr ''Stuart Ashworth''"
proof -
  have h1: "[] \<in> set (split_on CHR '' '' ''A  B'')"
    by code_simp
  have h2: "[''STUART'', ''ASHWORTH''] \<noteq> []
            \<and> (\<forall>w\<in>set [''STUART'', ''ASHWORTH'']. w \<noteq> [] \<and> CHR '' '' \<notin> set w)"
    by simp
  have e1: "join '' '' [''STUART'', ''ASHWORTH''] = ''STUART ASHWORTH''"
    by simp
  have e2: "join '' '' (map capitalise [''STUART'', ''ASHWORTH'']) = ''Stuart Ashworth''"
    by code_simp
  show ?thesis
    using h1 h2 e1 e2
      toSentenceCase_never_throws [of None "''A  B''" "[''STUART'', ''ASHWORTH'']"]
    by simp
qed

section \<open>Facts about the remote fetch and the single lookup\<close>

lemma getNumberOneRemote_world:
  "snd (getNumberOneRemote http y m d w) = w\<lparr>requests := requests w @ [chartUrl (y @ m @ d)]\<rparr>"
  by (simp add: getNumberOneRemote_def Let_def split: option.splits sum.splits)

lemma getNumberOneRemote_date:
  "fst (getNumberOneRemote http y m d w) = Inr e \<Longrightarrow> date e = y @ ''-'' @ m @ ''-'' @ d"
  by (auto simp: getNumberOneRemote_def Let_def split: option.splits sum.splits)

lemma getNumberOneRemote_pure:
  "fst (getNumberOneRemote http y m d w) = fst (getNumberOneRemote http y m d w')"
  by (simp add: getNumberOneRemote_def Let_def split: option.splits sum.splits)

lemma getNumberOne_hit:
  "getNumberOneLocal w y (sliceLast2 (''0'' @ m)) (sliceLast2 (''0'' @ d)) = Some e
   \<Longrightarrow> getNumberOne http y m d w = (Inr e, w)"
  by (simp add: getNumberOne_def)

lemma getNumberOne_miss:
  "getNumberOneLocal w y (sliceLast2 (''0'' @ m)) (sliceLast2 (''0'' @ d)) = None
   \<Longrightarrow> getNumberOne http y m d w
       = getNumberOneRemote http y (sliceLast2 (''0'' @ m)) (sliceLast2 (''0'' @ d)) w"
  by (simp add: getNumberOne_def)

lemma getNumberOne_stores:
  "numberOnesData (snd (getNumberOne http y m d w)) = numberOnesData w
   \<and> dataFile (snd (getNumberOne http y m d w)) = dataFile w"
  by (simp add: getNumberOne_def Let_def getNumberOneRemote_world split: option.splits)

lemma getNumberOne_pure:
  "numberOnesData w = numberOnesData w'
   \<Longrightarrow> fst (getNumberOne http y m d w) = fst (getNumberOne http y m d w')"
  using getNumberOneRemote_pure [of http y _ _ w w']
  by (simp add: getNumberOne_def Let_def getNumberOneLocal_def split: option.splits)

lemma getNumberOne_date:
  assumes "storeInvariant (numberOnesData w)"
    and "fst (getNumberOne http y m d w) = Inr e"
  shows "date e = y @ ''-'' @ sliceLast2 (''0'' @ m) @ ''-'' @ sliceLast2 (''0'' @ d)"
proof (cases "getNumberOneLocal w y (sliceLast2 (''0'' @ m)) (sliceLast2 (''0'' @ d))")
  case None
  then show ?thesis
    using assms(2) by (simp add: getNumberOne_miss getNumberOneRemote_date)
next
  case (Some e')
  then have "e' = e"
    using assms(2) by (simp add: getNumberOne_hit)
  then show ?thesis
    using Some assms(1) by (simp add: getNumberOneLocal_def storeInvariant_def)
qed

lemma showNat_small: "n < 10 \<Longrightarrow> showNat n = [digitChar n]"
  by (simp add: showNat.simps)

lemma showNat_two: "10 \<le> n \<Longrightarrow> n < 100 \<Longrightarrow> showNat n = twoDigits n"
  by (simp add: showNat.simps [of n] showNat_small twoDigits_def)

lemma twoDigits_small: "n < 10 \<Longrightarrow> twoDigits n = [digitChar 0, digitChar n]"
  by (simp add: twoDigits_def)

lemma pad_showNat: "n < 100 \<Longrightarrow> sliceLast2 (''0'' @ showNat n) = twoDigits n"
proof (cases "n < 10")
  case True
  have "digitChar 0 = CHR ''0''" by code_simp
  then show ?thesis using True by (simp add: showNat_small twoDigits_small sliceLast2_def)
next
  case False
  assume "n < 100"
  then show ?thesis using False by (simp add: showNat_two sliceLast2_def twoDigits_def)
qed

lemma pad_twoDigits: "sliceLast2 (''0'' @ twoDigits n) = twoDigits n"
  by (simp add: sliceLast2_def twoDigits_def)

section \<open>Facts about the yearly lookup\<close>

lemma yearsLoop_upto: "yearsLoop y c = [y..c]"
proof (induction y c rule: yearsLoop.induct)
  case (1 y c)
  show ?case
  proof (cases "y \<le> c")
    case True
    then have "yearsLoop y c = y # yearsLoop (y + 1) c"
      by (subst yearsLoop.simps) simp
    moreover have "[y..c] = y # [y + 1..c]"
      using True by (simp add: upto_rec1)
    ultimately show ?thesis
      using "1.IH" True by simp
  next
    case False
    then show ?thesis
      by (subst yearsLoop.simps) simp
  qed
qed

lemma promiseAll_stores:
  assumes "\<And>p w. p \<in> set ps \<Longrightarrow>
             numberOnesData (snd (p w)) = numberOnesData w \<and> dataFile (snd (p w)) = dataFile w"
  shows "numberOnesData (snd (promiseAll ps w)) = numberOnesData w
         \<and> dataFile (snd (promiseAll ps w)) = dataFile w"
  using assms
proof (induction ps arbitrary: w)
  case Nil
  then show ?case by simp
next
  case (Cons p ps)
  have step: "numberOnesData (snd (p w)) = numberOnesData w \<and> dataFile (snd (p w)) = dataFile w"
    using Cons.prems by simp
  have rest: "numberOnesData (snd (promiseAll ps (snd (p w)))) = numberOnesData (snd (p w))
              \<and> dataFile (snd (promiseAll ps (snd (p w)))) = dataFile (snd (p w))"
    using Cons.IH Cons.prems by simp
  show ?case
    using step rest by (simp add: case_prod_beta Let_def)
qed

lemma promiseAll_results:
  assumes pure: "\<And>x w w'. numberOnesData w = numberOnesData w' \<Longrightarrow> fst (g x w) = fst (g x w')"
    and frame: "\<And>x w. numberOnesData (snd (g x w)) = numberOnesData w"
  shows "(fst (promiseAll (map g xs) w) = Inr rs) = (map Inr rs = map (\<lambda>x. fst (g x w)) xs)"
proof (induction xs arbitrary: w rs)
  case Nil
  then show ?case by auto
next
  case (Cons x xs)
  have same: "\<And>x'. fst (g x' (snd (g x w))) = fst (g x' w)"
    using pure frame by blast
  have IH: "\<And>rs'. (fst (promiseAll (map g xs) (snd (g x w))) = Inr rs')
                  = (map Inr rs' = map (\<lambda>x. fst (g x w)) xs)"
    using Cons.IH [of "snd (g x w)"] same by simp
  show ?case
  proof (cases "fst (g x w)")
    case (Inl e)
    then show ?thesis
      by (auto simp: case_prod_beta Let_def)
  next
    case (Inr v)
    show ?thesis
    proof (cases "fst (promiseAll (map g xs) (snd (g x w)))")
      case (Inl e)
      then have "\<And>rs'. map Inr rs' \<noteq> map (\<lambda>x. fst (g x w)) xs"
        using IH by auto
      then show ?thesis
        using Inr Inl by (cases rs) (auto simp: case_prod_beta Let_def)
    next
      case inr: (Inr vs)
      have "(map Inr rs' = map (\<lambda>x. fst (g x w)) xs) = (rs' = vs)" for rs'
      proof -
        have "(map Inr rs' = map (\<lambda>x. fst (g x w)) xs)
              = (fst (promiseAll (map g xs) (snd (g x w))) = Inr rs')"
          using IH by simp
        also have "\<dots> = (rs' = vs)"
          using inr by auto
        finally show ?thesis .
      qed
      then show ?thesis
        using Inr inr by (cases rs) (auto simp: case_prod_beta Let_def)
    qed
  qed
qed

lemma getYearlyNumberOnes_unfold:
  "parseInt year0 = Some y \<Longrightarrow>
   getYearlyNumberOnes http now year0 month0 day0 w
     = promiseAll (map (\<lambda>yr. getNumberOne http (showInt yr) (showNum (parseInt month0))
                                (showNum (parseInt day0)))
                     [y..currentChartYear now (parseInt month0)]) w"
  by (simp add: getYearlyNumberOnes_def Let_def currentChartYear_def yearsLoop_upto
      split: option.splits)

lemma getYearlyNumberOnes_stores:
  "numberOnesData (snd (getYearlyNumberOnes http now year0 month0 day0 w)) = numberOnesData w
   \<and> dataFile (snd (getYearlyNumberOnes http now year0 month0 day0 w)) = dataFile w"
  unfolding getYearlyNumberOnes_def Let_def
  by (rule promiseAll_stores) (auto simp: getNumberOne_stores)

section \<open>The single lookup\<close>

text \<open>
  C5: for a month from 1 to 12 and a day from 1 to 31, each written with or without a
  leading zero, an entry returned by \<open>getNumberOne\<close> has as \<open>date\<close> the composite
  \<^verbatim>\<open>YYYY-MM-DD\<close> of the arguments, on a cache hit (the cache satisfying the store
  invariant) and on a remote fetch alike; the call fails only on a cache miss.
\<close>

theorem getNumberOne_date_iso:
  assumes "1 \<le> m" and "m \<le> 12" and "1 \<le> d" and "d \<le> 31"
    and "ms = showNat m \<or> ms = twoDigits m"
    and "ds = showNat d \<or> ds = twoDigits d"
    and "storeInvariant (numberOnesData w)"
  shows "case fst (getNumberOne http y ms ds w) of
           Inr e \<Rightarrow> date e = isoComposite y m d
         | Inl err \<Rightarrow> numberOnesData w (isoComposite y m d) = None"
proof -
  have pm: "sliceLast2 (''0'' @ ms) = twoDigits m"
    using assms(2,5) pad_showNat [of m] pad_twoDigits [of m] by auto
  have pd: "sliceLast2 (''0'' @ ds) = twoDigits d"
    using assms(4,6) pad_showNat [of d] pad_twoDigits [of d] by auto
  show ?thesis
  proof (cases "fst (getNumberOne http y ms ds w)")
    case (Inl err)
    have "numberOnesData w (isoComposite y m d) = None"
    proof (rule ccontr)
      assume "numberOnesData w (isoComposite y m d) \<noteq> None"
      then obtain e where "getNumberOneLocal w y (twoDigits m) (twoDigits d) = Some e"
        by (auto simp: getNumberOneLocal_def isoComposite_def)
      then have "getNumberOne http y ms ds w = (Inr e, w)"
        using pm pd by (simp add: getNumberOne_hit)
      then show False
        using Inl by simp
    qed
    then show ?thesis
      using Inl by simp
  next
    case (Inr e)
    then have "date e = isoComposite y m d"
      using getNumberOne_date [OF assms(7) Inr] pm pd by (simp add: isoComposite_def)
    then show ?thesis
      using Inr by simp
  qed
qed

theorem getNumberOne_date_iso_witness:
  "fst (getNumberOne site ''1999'' ''1'' ''01'' oldWorld) = Inr oldEntry
   \<and> date oldEntry = isoComposite ''1999'' 1 1
   \<and> (\<exists>e. fst (getNumberOne site ''2020'' ''06'' ''5'' oldWorld) = Inr e
          \<and> date e = ''2020-06-05'')"
proof -
  have inv: "storeInvariant (numberOnesData oldWorld)"
    by (simp add: storeInvariant_def oldWorld_def oldEntry_def)
  have hit: "fst (getNumberOne site ''1999'' ''1'' ''01'' oldWorld) = Inr oldEntry"
    by code_simp
  have m1: "''1'' = showNat 1 \<or> ''1'' = twoDigits 1" and d1: "''01'' = showNat 1 \<or> ''01'' = twoDigits 1"
    by code_simp+
  have first: "date oldEntry = isoComposite ''1999'' 1 1"
    using getNumberOne_date_iso [where m = 1 and d = 1 and http = site and y = "''1999''",
        OF _ _ _ _ m1 d1 inv]
      hit by simp
  have m2: "''06'' = showNat 6 \<or> ''06'' = twoDigits 6" and d2: "''5'' = showNat 5 \<or> ''5'' = twoDigits 5"
    by code_simp+
  have miss: "\<not> isl (fst (getNumberOne site ''2020'' ''06'' ''5'' oldWorld))"
    by code_simp
  then obtain e where e: "fst (getNumberOne site ''2020'' ''06'' ''5'' oldWorld) = Inr e"
    by (cases "fst (getNumberOne site ''2020'' ''06'' ''5'' oldWorld)") auto
  have iso: "isoComposite ''2020'' 6 5 = ''2020-06-05''"
    by code_simp
  have "date e = ''2020-06-05''"
    using getNumberOne_date_iso [where m = 6 and d = 5 and http = site and y = "''2020''",
        OF _ _ _ _ m2 d2 inv]
      e iso by simp
  then show ?thesis
    using hit first e by blast
qed

text \<open>
  C7: when the key is in the cache, \<open>getNumberOne\<close> returns the cached entry and leaves
  the world as it was, so it requests nothing, and neither does a second call. In every
  case \<open>getNumberOne\<close>, and \<open>getYearlyNumberOnes\<close> which only calls it, leave the cache in
  memory and the file as they were: a fetched result is not stored.
\<close>

theorem getNumberOne_frame:
  "(getNumberOneLocal w y (sliceLast2 (''0'' @ m)) (sliceLast2 (''0'' @ d)) = Some e \<longrightarrow>
      getNumberOne http y m d w = (Inr e, w)
      \<and> requests (snd (getNumberOne http y m d w)) = requests w
      \<and> requests (snd (getNumberOne http y m d (snd (getNumberOne http y m d w)))) = requests w)
   \<and> numberOnesData (snd (getNumberOne http y m d w)) = numberOnesData w
   \<and> dataFile (snd (getNumberOne http y m d w)) = dataFile w
   \<and> numberOnesData (snd (getYearlyNumberOnes http now y m d w)) = numberOnesData w
   \<and> dataFile (snd (getYearlyNumberOnes http now y m d w)) = dataFile w"
  using getNumberOne_hit [of w y m d e http] getNumberOne_stores [of http y m d w]
    getYearlyNumberOnes_stores [of http now y m d w]
  by auto

theorem getNumberOne_frame_witness:
  "getNumberOneLocal oldWorld ''1999'' (sliceLast2 (''0'' @ ''1'')) (sliceLast2 (''0'' @ ''01''))
     = Some oldEntry
   \<and> requests (snd (getNumberOne site ''1999'' ''1'' ''01'' oldWorld)) = []
   \<and> requests (snd (getNumberOne site ''1999'' ''1'' ''01''
                      (snd (getNumberOne site ''1999'' ''1'' ''01'' oldWorld)))) = []"
proof -
  have h: "getNumberOneLocal oldWorld ''1999'' (sliceLast2 (''0'' @ ''1''))
             (sliceLast2 (''0'' @ ''01'')) = Some oldEntry"
    by code_simp
  have r: "requests oldWorld = []"
    by (simp add: oldWorld_def)
  show ?thesis
    using h r getNumberOne_frame [where w = oldWorld and y = "''1999''" and m = "''1''"
        and d = "''01''" and e = oldEntry and http = site]
    by simp
qed

section \<open>The yearly lookup\<close>

lemma map_date_results:
  "map Inr rs = map f xs \<Longrightarrow> (\<And>x e. f x = Inr e \<Longrightarrow> date e = k x)
   \<Longrightarrow> map date rs = map k xs"
proof (induction xs arbitrary: rs)
  case Nil
  then show ?case by simp
next
  case (Cons x xs)
  then obtain r rs' where rs: "rs = r # rs'"
    by (cases rs) auto
  then have "f x = Inr r" and "map Inr rs' = map f xs"
    using Cons.prems(1) by auto
  then show ?case
    using Cons.IH [of rs'] Cons.prems(2) rs by simp
qed

text \<open>
  C3: when the year argument parses to \<open>y\<close>, \<open>getYearlyNumberOnes\<close> returns a sequence
  exactly when every year from \<open>y\<close> to the current chart year has a result, and the
  sequence is then the results of \<open>getNumberOne\<close> for these consecutive years, in
  ascending order of the year whatever the order in which the lookups finish. The current
  chart year is the current year, less one exactly when the queried month (from 1) is
  greater than the current month (from 0). Under the store invariant the dates of the
  entries are those of the consecutive years.
\<close>

theorem getYearlyNumberOnes_range:
  assumes "parseInt yearS = Some y"
  shows "((fst (getYearlyNumberOnes http now yearS monthS dayS w) = Inr rs)
            = (map Inr rs
                 = map (\<lambda>yr. fst (getNumberOne http (showInt yr) (showNum (parseInt monthS))
                                     (showNum (parseInt dayS)) w))
                     [y..currentChartYear now (parseInt monthS)]))
         \<and> (storeInvariant (numberOnesData w)
              \<and> fst (getYearlyNumberOnes http now yearS monthS dayS w) = Inr rs \<longrightarrow>
             map date rs
               = map (\<lambda>yr. showInt yr @ ''-'' @ sliceLast2 (''0'' @ showNum (parseInt monthS))
                              @ ''-'' @ sliceLast2 (''0'' @ showNum (parseInt dayS)))
                   [y..currentChartYear now (parseInt monthS)])"
proof -
  let ?g = "\<lambda>yr. getNumberOne http (showInt yr) (showNum (parseInt monthS))
                    (showNum (parseInt dayS))"
  let ?years = "[y..currentChartYear now (parseInt monthS)]"
  have unfold: "getYearlyNumberOnes http now yearS monthS dayS w = promiseAll (map ?g ?years) w"
    using assms by (rule getYearlyNumberOnes_unfold)
  have iff: "(fst (promiseAll (map ?g ?years) w) = Inr rs)
             = (map Inr rs = map (\<lambda>yr. fst (?g yr w)) ?years)"
    by (rule promiseAll_results) (auto simp: getNumberOne_stores intro: getNumberOne_pure)
  have dates: "map date rs
                 = map (\<lambda>yr. showInt yr @ ''-'' @ sliceLast2 (''0'' @ showNum (parseInt monthS))
                                @ ''-'' @ sliceLast2 (''0'' @ showNum (parseInt dayS))) ?years"
    if inv: "storeInvariant (numberOnesData w)"
      and ok: "fst (getYearlyNumberOnes http now yearS monthS dayS w) = Inr rs"
  proof (rule map_date_results)
    show "map Inr rs = map (\<lambda>yr. fst (?g yr w)) ?years"
      using ok unfold iff by simp
  next
    fix yr e
    assume "fst (?g yr w) = Inr e"
    then show "date e = showInt yr @ ''-'' @ sliceLast2 (''0'' @ showNum (parseInt monthS))
                          @ ''-'' @ sliceLast2 (''0'' @ showNum (parseInt dayS))"
      using getNumberOne_date [OF inv] by simp
  qed
  show ?thesis
    using unfold iff dates by simp
qed

theorem getYearlyNumberOnes_range_witness:
  "parseInt ''2019'' = Some 2019
   \<and> getMonth (makeDay 2021 0 31) = 0
   \<and> currentChartYear (makeDay 2021 0 31) (parseInt ''6'') = 2020
   \<and> (\<exists>rs. fst (getYearlyNumberOnes site (makeDay 2021 0 31) ''2019'' ''6'' ''15'' emptyWorld)
               = Inr rs
          \<and> map date rs = [''2019-06-15'', ''2020-06-15''])"
proof -
  have y: "parseInt ''2019'' = Some 2019"
    by code_simp
  have mo: "getMonth (makeDay 2021 0 31) = 0"
    by code_simp
  have cy: "currentChartYear (makeDay 2021 0 31) (parseInt ''6'') = 2020"
    by code_simp
  have inv: "storeInvariant (numberOnesData emptyWorld)"
    by (simp add: storeInvariant_def emptyWorld_def)
  have "\<not> isl (fst (getYearlyNumberOnes site (makeDay 2021 0 31) ''2019'' ''6'' ''15'' emptyWorld))"
    by code_simp
  then obtain rs
    where rs: "fst (getYearlyNumberOnes site (makeDay 2021 0 31) ''2019'' ''6'' ''15'' emptyWorld)
                 = Inr rs"
    by (cases "fst (getYearlyNumberOnes site (makeDay 2021 0 31) ''2019'' ''6'' ''15'' emptyWorld)")
      auto
  have keys: "map (\<lambda>yr. showInt yr @ ''-'' @ sliceLast2 (''0'' @ showNum (parseInt ''6''))
                          @ ''-'' @ sliceLast2 (''0'' @ showNum (parseInt ''15'')))
                [2019..2020]
              = [''2019-06-15'', ''2020-06-15'']"
    by code_simp
  have ds: "map date rs = [''2019-06-15'', ''2020-06-15'']"
    using getYearlyNumberOnes_range [OF y, where http = site and now = "makeDay 2021 0 31"
        and monthS = "''6''" and dayS = "''15''" and w = emptyWorld and rs = rs]
      inv rs cy keys by simp
  have "\<exists>rs. fst (getYearlyNumberOnes site (makeDay 2021 0 31) ''2019'' ''6'' ''15'' emptyWorld)
               = Inr rs
          \<and> map date rs = [''2019-06-15'', ''2020-06-15'']"
    by (rule exI [of _ rs], rule conjI, rule rs, rule ds)
  with y mo cy show ?thesis
    by (intro conjI)
qed

section \<open>Facts about the backfill\<close>

lemma processTask_world:
  "snd (processTask http t w) = w\<lparr>requests := requests w @ [taskUrl t]\<rparr>"
  by (cases t) (simp add: processTask_def taskUrl_def getNumberOneRemote_world)

lemma processTask_pure: "fst (processTask http t w) = fst (processTask http t w')"
  by (cases t) (simp add: processTask_def getNumberOneRemote_pure [of http _ _ _ w w'])

lemma processTask_date: "fst (processTask http t w) = Inr e \<Longrightarrow> date e = taskKey t"
  by (cases t) (auto simp: processTask_def taskKey_def dest: getNumberOneRemote_date)

lemma startAll_processTask:
  "startAll (processTask http) ts w
     = (map (\<lambda>t. fst (processTask http t w)) ts, w\<lparr>requests := requests w @ map taskUrl ts\<rparr>)"
proof (induction ts arbitrary: w)
  case Nil
  then show ?case by simp
next
  case (Cons t ts)
  have p: "processTask http t w
             = (fst (processTask http t w), w\<lparr>requests := requests w @ [taskUrl t]\<rparr>)"
    using processTask_world [of http t w] by (simp add: prod_eq_iff)
  have same: "\<And>t'. fst (processTask http t' (w\<lparr>requests := requests w @ [taskUrl t]\<rparr>))
                   = fst (processTask http t' w)"
    by (rule processTask_pure)
  show ?case
    by (subst startAll.simps, subst p) (simp add: Cons.IH same)
qed

lemma completed_mset:
  assumes "mset sched = mset [0..<length outs]"
  shows "mset (completed sched outs) = mset outs"
proof -
  have "set sched = set [0..<length outs]"
    using assms by (rule mset_eq_setD)
  then have "filter (\<lambda>i. i < length outs) sched = sched"
    by (auto simp: filter_id_conv)
  then have "mset (completed sched outs) = image_mset ((!) outs) (mset sched)"
    by (simp add: completed_def)
  also have "\<dots> = mset (map ((!) outs) [0..<length outs])"
    using assms by simp
  also have "\<dots> = mset outs"
    by (simp add: map_nth)
  finally show ?thesis .
qed

lemma map_filter_mset:
  "mset xs = mset ys \<Longrightarrow> mset (List.map_filter f xs) = mset (List.map_filter f ys)"
proof -
  assume eq: "mset xs = mset ys"
  have "mset (List.map_filter f zs) = image_mset (the \<circ> f) (filter_mset (\<lambda>x. f x \<noteq> None) (mset zs))"
    for zs
    by (simp add: List.map_filter_def)
  then show ?thesis
    using eq by simp
qed

lemma map_filter_map: "List.map_filter f (map g xs) = List.map_filter (f \<circ> g) xs"
  by (induction xs) (simp_all add: List.map_filter_simps split: option.splits)

lemma foldl_save_dom: "dom (foldl saveEntry acc rs) = dom acc \<union> date ` set rs"
  by (induction rs arbitrary: acc) (auto simp: saveEntry_def)

lemma foldl_save_lookup:
  "foldl saveEntry acc rs k = Some e \<Longrightarrow> acc k = Some e \<or> (e \<in> set rs \<and> date e = k)"
proof (induction rs arbitrary: acc)
  case Nil
  then show ?case by simp
next
  case (Cons r rs)
  from Cons.prems have "foldl saveEntry (saveEntry acc r) rs k = Some e"
    by simp
  from Cons.IH [OF this] show ?case
    by (auto simp: saveEntry_def split: if_splits)
qed

lemma buildSaveData_dom: "dom (buildSaveData rs) = date ` set rs"
  by (simp add: buildSaveData_def foldl_save_dom)

lemma buildSaveData_lookup: "buildSaveData rs k = Some e \<Longrightarrow> e \<in> set rs \<and> date e = k"
  using foldl_save_lookup [of Map.empty rs k e] by (simp add: buildSaveData_def)

lemma cacheNumberOnes_results:
  "fst (cacheNumberOnes http sched now dateS w)
     = List.map_filter (\<lambda>r. case r of Inr v \<Rightarrow> Some v | Inl _ \<Rightarrow> None)
         (completed sched (map (\<lambda>t. fst (processTask http t w)) (dates now dateS)))"
  by (simp add: cacheNumberOnes_def process_def startAll_processTask Let_def)

lemma cacheNumberOnes_world:
  "snd (cacheNumberOnes http sched now dateS w)
     = w\<lparr>requests := requests w @ map taskUrl (dates now dateS),
         dataFile := buildSaveData (fst (cacheNumberOnes http sched now dateS w))\<rparr>"
  by (simp add: cacheNumberOnes_def process_def startAll_processTask Let_def)

lemma cacheNumberOnes_mset:
  assumes "mset sched = mset [0..<length (dates now dateS)]"
  shows "mset (fst (cacheNumberOnes http sched now dateS w))
           = mset (fetched http w (dates now dateS))"
proof -
  let ?outs = "map (\<lambda>t. fst (processTask http t w)) (dates now dateS)"
  let ?sel = "\<lambda>r. case r of Inr v \<Rightarrow> Some v | Inl _ \<Rightarrow> None"
  have "mset (completed sched ?outs) = mset ?outs"
    using assms by (intro completed_mset) simp
  then have "mset (List.map_filter ?sel (completed sched ?outs)) = mset (List.map_filter ?sel ?outs)"
    by (rule map_filter_mset)
  moreover have "List.map_filter ?sel ?outs = fetched http w (dates now dateS)"
    by (simp add: map_filter_map fetched_def comp_def)
  ultimately show ?thesis
    by (simp add: cacheNumberOnes_results)
qed

lemma showNat_not_Nil: "showNat n \<noteq> []"
  by (subst showNat.simps) simp

lemma showInt_not_Nil: "showInt i \<noteq> []"
  by (simp add: showInt_def showNat_not_Nil)

lemma sliceLast2_length: "s \<noteq> [] \<Longrightarrow> length (sliceLast2 (''0'' @ s)) = 2"
  by (cases s) (auto simp: sliceLast2_def)

lemma datesLoop_shape:
  "t \<in> set (datesLoop d now) \<Longrightarrow> length (fst (snd t)) = 2 \<and> length (snd (snd t)) = 2"
proof (induction d now rule: datesLoop.induct)
  case (1 d now)
  show ?case
  proof (cases "d \<le> now")
    case True
    then have "datesLoop d now
                 = (getFullYear d, sliceLast2 (''0'' @ showInt (getMonth d)),
                    sliceLast2 (''0'' @ showInt (getDate d))) # datesLoop (d + 1) now"
      by (subst datesLoop.simps) simp
    then show ?thesis
      using "1.prems" "1.IH" [OF True] sliceLast2_length [OF showInt_not_Nil]
      by auto
  next
    case False
    then have "datesLoop d now = []"
      by (subst datesLoop.simps) simp
    then show ?thesis
      using "1.prems" by simp
  qed
qed

lemma dates_shape:
  "t \<in> set (dates now dateS) \<Longrightarrow> length (fst (snd t)) = 2 \<and> length (snd (snd t)) = 2"
  by (auto simp: dates_def split: option.splits dest: datesLoop_shape)

lemma same_key_same_task:
  assumes "length m = 2" and "length d = 2" and "length m' = 2" and "length d' = 2"
    and "ys @ ''-'' @ m @ ''-'' @ d = ys' @ ''-'' @ m' @ ''-'' @ d'"
  shows "ys = ys' \<and> m = m' \<and> d = d'"
proof -
  have "length (''-'' @ m @ ''-'' @ d) = length (''-'' @ m' @ ''-'' @ d')"
    using assms(1-4) by simp
  then have "ys = ys' \<and> ''-'' @ m @ ''-'' @ d = ''-'' @ m' @ ''-'' @ d'"
    using assms(5) by (metis append_eq_append_conv)
  then show ?thesis
    using assms(1,3) by simp
qed

lemma same_key_same_result:
  assumes "t \<in> set (dates now dateS)" and "t' \<in> set (dates now dateS)"
    and "taskKey t = taskKey t'"
  shows "fst (processTask http t w) = fst (processTask http t' w)"
proof -
  obtain y m d where t: "t = (y, m, d)" by (cases t)
  obtain y' m' d' where t': "t' = (y', m', d')" by (cases t')
  have "length m = 2" "length d = 2" "length m' = 2" "length d' = 2"
    using dates_shape [OF assms(1)] dates_shape [OF assms(2)] t t' by simp_all
  moreover have "showInt y @ ''-'' @ m @ ''-'' @ d = showInt y' @ ''-'' @ m' @ ''-'' @ d'"
    using assms(3) t t' by (simp add: taskKey_def)
  ultimately have "showInt y = showInt y' \<and> m = m' \<and> d = d'"
    by (rule same_key_same_task)
  then show ?thesis
    using t t' by (simp add: processTask_def)
qed

lemma fetched_set:
  "set (fetched http w ts) = {e. \<exists>t\<in>set ts. fst (processTask http t w) = Inr e}"
  unfolding fetched_def
  by (induction ts) (auto simp: List.map_filter_simps split: sum.splits)

lemma cacheNumberOnes_cache:
  "numberOnesData (snd (cacheNumberOnes http sched now dateS w)) = numberOnesData w"
  by (simp add: cacheNumberOnes_world)

lemma cacheNumberOnes_saved:
  assumes "cacheNumberOnes http sched now dateS w = (results, w')"
  shows "dataFile w' = buildSaveData results"
proof -
  have "results = fst (cacheNumberOnes http sched now dateS w)"
    and "w' = snd (cacheNumberOnes http sched now dateS w)"
    using assms by simp_all
  then show ?thesis
    by (simp add: cacheNumberOnes_world [of http sched now dateS w])
qed

section \<open>Facts about dates\<close>

text \<open>
  Day 0 is 1 January 1970; the day after 29 February 2020 is 1 March, the day after
  28 February 2021 is 1 March, and the day after 31 December is 1 January. A month
  beyond 11 or a day beyond the end of the month carries over, as in \<^verbatim>\<open>new Date\<close>.
\<close>

lemma civilFromDays_epoch: "civilFromDays 0 = (1970, 1, 1)"
  by code_simp

lemma next_day_leap_february: "civilFromDays (makeDay 2020 1 29 + 1) = (2020, 3, 1)"
  by code_simp

lemma next_day_february: "civilFromDays (makeDay 2021 1 28 + 1) = (2021, 3, 1)"
  by code_simp

lemma next_day_december: "civilFromDays (makeDay 2020 11 31 + 1) = (2021, 1, 1)"
  by code_simp

lemma makeDay_carries: "makeDay 2020 12 30 = makeDay 2021 0 30 \<and> makeDay 2020 1 30 = makeDay 2020 2 1"
  by code_simp

section \<open>The backfill and the store\<close>

text \<open>
  C1, as the specification states it: after a backfill the file holds what it held
  before, merged with the new entries, so a key that was there and was not fetched
  again is still there. It is not: with the key \<^verbatim>\<open>1999-01-01\<close> in the file, a backfill
  that fetches one date leaves a file without that key.
\<close>

theorem cacheNumberOnes_merge_counterexample:
  "dataFile oldWorld ''1999-01-01'' = Some oldEntry
   \<and> map date (fst (cacheNumberOnes site [0] (makeDay 2021 0 30) ''20201230'' oldWorld))
       = [''2021-00-30'']
   \<and> dataFile (snd (cacheNumberOnes site [0] (makeDay 2021 0 30) ''20201230'' oldWorld))
       ''1999-01-01'' = None"
  by code_simp

text \<open>
  C1, amended: after every backfill the file holds exactly the entries returned by the
  run, each under its \<open>date\<close>: the run starts from an empty object and writes the whole
  file, so a key that was in the file before and is not the date of a returned entry is
  no longer there.
\<close>

theorem cacheNumberOnes_overwrites:
  assumes "cacheNumberOnes http sched now dateS w = (results, w')"
  shows "dom (dataFile w') = date ` set results
         \<and> (\<forall>k e. dataFile w' k = Some e \<longrightarrow> e \<in> set results \<and> date e = k)
         \<and> (\<forall>k. k \<in> dom (dataFile w) \<and> k \<notin> date ` set results \<longrightarrow> dataFile w' k = None)"
proof -
  have saved: "dataFile w' = buildSaveData results"
    using assms by (rule cacheNumberOnes_saved)
  have d: "dom (dataFile w') = date ` set results"
    using saved by (simp add: buildSaveData_dom)
  moreover have "\<forall>k e. dataFile w' k = Some e \<longrightarrow> e \<in> set results \<and> date e = k"
    using saved buildSaveData_lookup by simp
  moreover have "\<forall>k. k \<in> dom (dataFile w) \<and> k \<notin> date ` set results \<longrightarrow> dataFile w' k = None"
    using d by blast
  ultimately show ?thesis
    by (intro conjI)
qed

theorem cacheNumberOnes_overwrites_witness:
  "''1999-01-01'' \<in> dom (dataFile oldWorld)
   \<and> dom (dataFile (snd (cacheNumberOnes site [0] (makeDay 2021 0 30) ''20201230'' oldWorld)))
       = {''2021-00-30''}"
proof -
  let ?run = "cacheNumberOnes site [0] (makeDay 2021 0 30) ''20201230'' oldWorld"
  have old: "''1999-01-01'' \<in> dom (dataFile oldWorld)"
    by (simp add: oldWorld_def)
  have run: "?run = (fst ?run, snd ?run)"
    by simp
  have ds: "map date (fst ?run) = [''2021-00-30'']"
    by code_simp
  from ds have "set (map date (fst ?run)) = set [''2021-00-30'']"
    by (rule arg_cong)
  then have img: "date ` set (fst ?run) = {''2021-00-30''}"
    by simp
  have "dom (dataFile (snd ?run)) = date ` set (fst ?run)"
    using cacheNumberOnes_overwrites [OF run] by (rule conjunct1)
  also note img
  finally have "dom (dataFile (snd ?run)) = {''2021-00-30''}" .
  with old show ?thesis
    by (intro conjI)
qed

text \<open>
  C8: a fetch that fails does not stop the backfill. Whatever the order in which the
  fetches finish, exactly one request is made for every date of the range, in the order
  of the dates, so nothing is retried; the entries returned are those of the fetches
  that succeed; for a date whose fetch fails, no returned entry has its key and the
  file has no entry under it; for a date whose fetch succeeds, its entry is returned
  and is in the file under its key.
\<close>

theorem cacheNumberOnes_omits_failures:
  assumes "mset sched = mset [0..<length (dates now dateS)]"
    and "cacheNumberOnes http sched now dateS w = (results, w')"
  shows "mset results = mset (fetched http w (dates now dateS))
         \<and> requests w' = requests w @ map taskUrl (dates now dateS)
         \<and> (\<forall>t\<in>set (dates now dateS).
               case fst (processTask http t w) of
                 Inl err \<Rightarrow> taskKey t \<notin> date ` set results \<and> dataFile w' (taskKey t) = None
               | Inr e \<Rightarrow> e \<in> set results \<and> dataFile w' (taskKey t) = Some e)"
proof -
  have r: "results = fst (cacheNumberOnes http sched now dateS w)"
    and w': "w' = snd (cacheNumberOnes http sched now dateS w)"
    using assms(2) by simp_all
  have ms: "mset results = mset (fetched http w (dates now dateS))"
    unfolding r using assms(1) by (rule cacheNumberOnes_mset)
  then have "set results = set (fetched http w (dates now dateS))"
    by (rule mset_eq_setD)
  then have mem: "e \<in> set results
                  \<longleftrightarrow> (\<exists>t\<in>set (dates now dateS). fst (processTask http t w) = Inr e)" for e
    by (simp add: fetched_set)
  have reqs: "requests w' = requests w @ map taskUrl (dates now dateS)"
    unfolding w' by (subst cacheNumberOnes_world) simp
  have saved: "dataFile w' = buildSaveData results"
    using assms(2) by (rule cacheNumberOnes_saved)
  have keys: "dom (dataFile w') = date ` set results"
    using saved by (simp add: buildSaveData_dom)
  have stored: "\<And>k e. dataFile w' k = Some e \<Longrightarrow> e \<in> set results \<and> date e = k"
    using saved buildSaveData_lookup by simp
  have each: "case fst (processTask http t w) of
                Inl err \<Rightarrow> taskKey t \<notin> date ` set results \<and> dataFile w' (taskKey t) = None
              | Inr e \<Rightarrow> e \<in> set results \<and> dataFile w' (taskKey t) = Some e"
    if t: "t \<in> set (dates now dateS)" for t
  proof (cases "fst (processTask http t w)")
    case (Inl err)
    have "taskKey t \<notin> date ` set results"
    proof
      assume "taskKey t \<in> date ` set results"
      then obtain e where "e \<in> set results" and k: "date e = taskKey t"
        by auto
      then obtain t' where t': "t' \<in> set (dates now dateS)"
        and ok: "fst (processTask http t' w) = Inr e"
        using mem by auto
      have "taskKey t' = taskKey t"
        using processTask_date [OF ok] k by simp
      then have "fst (processTask http t' w) = fst (processTask http t w)"
        using same_key_same_result [OF t' t] by simp
      then show False
        using ok Inl by simp
    qed
    moreover from this have "dataFile w' (taskKey t) = None"
      using keys by blast
    ultimately show ?thesis
      using Inl by simp
  next
    case (Inr e)
    then have e: "e \<in> set results"
      using mem t by auto
    have key: "date e = taskKey t"
      using Inr by (rule processTask_date)
    then have "taskKey t \<in> dom (dataFile w')"
      using keys e by force
    then obtain e' where e': "dataFile w' (taskKey t) = Some e'"
      by auto
    then have "e' \<in> set results" and "date e' = taskKey t"
      using stored by auto
    then obtain t' where t': "t' \<in> set (dates now dateS)"
      and ok: "fst (processTask http t' w) = Inr e'"
      using mem by auto
    have "taskKey t' = taskKey t"
      using processTask_date [OF ok] \<open>date e' = taskKey t\<close> by simp
    then have "fst (processTask http t' w) = fst (processTask http t w)"
      using same_key_same_result [OF t' t] by simp
    then have "e' = e"
      using ok Inr by simp
    then show ?thesis
      using Inr e e' by simp
  qed
  show ?thesis
    using ms reqs each by blast
qed

theorem cacheNumberOnes_omits_failures_witness:
  "mset [1, 0] = mset [0..<length (dates (makeDay 2021 0 31) ''20201230'')]
   \<and> isl (fst (processTask site (2021, ''00'', ''31'') oldWorld))
   \<and> requests (snd (cacheNumberOnes site [1, 0] (makeDay 2021 0 31) ''20201230'' oldWorld))
       = [chartUrl ''20210030'', chartUrl ''20210031'']
   \<and> dataFile (snd (cacheNumberOnes site [1, 0] (makeDay 2021 0 31) ''20201230'' oldWorld))
       ''2021-00-31'' = None
   \<and> dataFile (snd (cacheNumberOnes site [1, 0] (makeDay 2021 0 31) ''20201230'' oldWorld))
       ''2021-00-30'' \<noteq> None"
proof -
  let ?run = "cacheNumberOnes site [1, 0] (makeDay 2021 0 31) ''20201230'' oldWorld"
  let ?dates = "dates (makeDay 2021 0 31) ''20201230''"
  have ds: "?dates = [(2021, ''00'', ''30''), (2021, ''00'', ''31'')]"
    by code_simp
  have perm: "mset [1, 0] = mset [0..<length ?dates]"
    unfolding ds by (simp add: upt_rec)
  have run: "?run = (fst ?run, snd ?run)"
    by simp
  have bad: "isl (fst (processTask site (2021, ''00'', ''31'') oldWorld))"
    by code_simp
  have good: "\<not> isl (fst (processTask site (2021, ''00'', ''30'') oldWorld))"
    by code_simp
  have k1: "taskKey (2021, ''00'', ''31'') = ''2021-00-31''"
    and k0: "taskKey (2021, ''00'', ''30'') = ''2021-00-30''"
    by code_simp+
  have urls: "requests oldWorld @ map taskUrl ?dates = [chartUrl ''20210030'', chartUrl ''20210031'']"
    unfolding ds by code_simp
  note inst = cacheNumberOnes_omits_failures [OF perm run]
  have reqs: "requests (snd ?run) = [chartUrl ''20210030'', chartUrl ''20210031'']"
    using inst urls by simp
  have each: "\<forall>t\<in>set ?dates.
                case fst (processTask site t oldWorld) of
                  Inl err \<Rightarrow> taskKey t \<notin> date ` set (fst ?run) \<and> dataFile (snd ?run) (taskKey t) = None
                | Inr e \<Rightarrow> e \<in> set (fst ?run) \<and> dataFile (snd ?run) (taskKey t) = Some e"
    using inst by (rule conjunct2 [OF conjunct2])
  have "(2021, ''00'', ''31'') \<in> set ?dates"
    unfolding ds by simp
  with each
  have c1: "case fst (processTask site (2021, ''00'', ''31'') oldWorld) of
              Inl err \<Rightarrow> taskKey (2021, ''00'', ''31'') \<notin> date ` set (fst ?run)
                         \<and> dataFile (snd ?run) (taskKey (2021, ''00'', ''31'')) = None
            | Inr e \<Rightarrow> e \<in> set (fst ?run)
                       \<and> dataFile (snd ?run) (taskKey (2021, ''00'', ''31'')) = Some e"
    by (rule bspec)
  obtain err where "fst (processTask site (2021, ''00'', ''31'') oldWorld) = Inl err"
    using bad by (cases "fst (processTask site (2021, ''00'', ''31'') oldWorld)") auto
  with c1 have none: "dataFile (snd ?run) (taskKey (2021, ''00'', ''31'')) = None"
    by simp
  have "(2021, ''00'', ''30'') \<in> set ?dates"
    unfolding ds by simp
  with each
  have c0: "case fst (processTask site (2021, ''00'', ''30'') oldWorld) of
              Inl err \<Rightarrow> taskKey (2021, ''00'', ''30'') \<notin> date ` set (fst ?run)
                         \<and> dataFile (snd ?run) (taskKey (2021, ''00'', ''30'')) = None
            | Inr e \<Rightarrow> e \<in> set (fst ?run)
                       \<and> dataFile (snd ?run) (taskKey (2021, ''00'', ''30'')) = Some e"
    by (rule bspec)
  obtain e where "fst (processTask site (2021, ''00'', ''30'') oldWorld) = Inr e"
    using good by (cases "fst (processTask site (2021, ''00'', ''30'') oldWorld)") auto
  with c0 have some: "dataFile (snd ?run) (taskKey (2021, ''00'', ''30'')) \<noteq> None"
    by simp
  from perm bad reqs none [unfolded k1] some [unfolded k0] show ?thesis
    by (intro conjI)
qed

text \<open>
  C9: the file written by a backfill satisfies the store invariant, whatever it held
  before; \<open>getNumberOne\<close> and \<open>getYearlyNumberOnes\<close> leave the file and the cache in
  memory as they were, and a backfill leaves the cache in memory as it was, so the
  invariant of either store is kept by every operation.
\<close>

theorem store_invariant_kept:
  "storeInvariant (dataFile (snd (cacheNumberOnes http sched now dateS w)))
   \<and> (storeInvariant (numberOnesData w) \<longrightarrow>
        storeInvariant (numberOnesData (snd (cacheNumberOnes http sched now dateS w)))
        \<and> storeInvariant (numberOnesData (snd (getNumberOne http y m d w)))
        \<and> storeInvariant (numberOnesData (snd (getYearlyNumberOnes http now y m d w))))
   \<and> (storeInvariant (dataFile w) \<longrightarrow>
        storeInvariant (dataFile (snd (getNumberOne http y m d w)))
        \<and> storeInvariant (dataFile (snd (getYearlyNumberOnes http now y m d w))))"
proof -
  have "dataFile (snd (cacheNumberOnes http sched now dateS w))
          = buildSaveData (fst (cacheNumberOnes http sched now dateS w))"
    by (subst cacheNumberOnes_world) simp
  then have "storeInvariant (dataFile (snd (cacheNumberOnes http sched now dateS w)))"
    using buildSaveData_lookup by (simp add: storeInvariant_def)
  then show ?thesis
    by (simp add: cacheNumberOnes_cache getNumberOne_stores getYearlyNumberOnes_stores)
qed

theorem store_invariant_kept_witness:
  "storeInvariant (dataFile oldWorld)
   \<and> storeInvariant (dataFile (snd (getNumberOne site ''2020'' ''6'' ''15'' oldWorld)))
   \<and> (\<exists>e. dataFile (snd (cacheNumberOnes site [0] (makeDay 2021 0 30) ''20201230'' oldWorld))
             ''2021-00-30'' = Some e
          \<and> date e = ''2021-00-30'')"
proof -
  let ?run = "cacheNumberOnes site [0] (makeDay 2021 0 30) ''20201230'' oldWorld"
  have old: "storeInvariant (dataFile oldWorld)"
    by (simp add: storeInvariant_def oldWorld_def oldEntry_def)
  note inst = store_invariant_kept [where http = site and sched = "[0]"
      and now = "makeDay 2021 0 30" and dateS = "''20201230''" and w = oldWorld
      and y = "''2020''" and m = "''6''" and d = "''15''"]
  have kept: "storeInvariant (dataFile (snd (getNumberOne site ''2020'' ''6'' ''15'' oldWorld)))"
    using inst old by blast
  have inv: "storeInvariant (dataFile (snd ?run))"
    using inst by (rule conjunct1)
  have "dataFile (snd ?run) ''2021-00-30'' \<noteq> None"
    by code_simp
  then obtain e where e: "dataFile (snd ?run) ''2021-00-30'' = Some e"
    by auto
  then have "date e = ''2021-00-30''"
    using inv unfolding storeInvariant_def by blast
  with e have "\<exists>e. dataFile (snd ?run) ''2021-00-30'' = Some e \<and> date e = ''2021-00-30''"
    by (intro exI conjI)
  with old kept show ?thesis
    by (intro conjI)
qed

section \<open>The dates of a backfill\<close>

text \<open>
  C2 says that a backfill fetches every calendar date from the start date to today, each
  under its year, month (from 1) and day. On 31 January 2021 a backfill from
  \<^verbatim>\<open>20201230\<close> should fetch the 33 dates from 30 December 2020 on. The code builds the
  start with \<^verbatim>\<open>new Date(2020, 12, 30)\<close>, whose month counts from 0, so the start is
  30 January 2021, and names each date by \<^verbatim>\<open>getMonth()\<close>, which counts from 0 too: it
  makes two requests, for the month \<^verbatim>\<open>00\<close> of 2021. With the start written
  \<^verbatim>\<open>2020-12-30\<close>, the form the comment of the function gives, the date is invalid and
  nothing is fetched.
\<close>

theorem cacheNumberOnes_month_from_zero:
  "civilFromDays (makeDay 2021 0 31) = (2021, 1, 31)
   \<and> civilFromDays (makeDay 2020 12 30) = (2021, 1, 30)
   \<and> dates (makeDay 2021 0 31) ''20201230'' = [(2021, ''00'', ''30''), (2021, ''00'', ''31'')]
   \<and> requests (snd (cacheNumberOnes site [0, 1] (makeDay 2021 0 31) ''20201230'' emptyWorld))
       = [chartUrl ''20210030'', chartUrl ''20210031'']
   \<and> dates (makeDay 2021 0 31) ''2020-12-30'' = []"
  by code_simp

end
